theory Spec2Isabelle
  imports Complex_Main "HOL-Library.Multiset"
begin

section \<open>JavaScript values\<close>

text \<open>
  The client in \<^verbatim>\<open>lib/statsd.js\<close> inspects its arguments at run time (truthiness,
  \<^verbatim>\<open>typeof\<close>, \<^verbatim>\<open>Array.isArray\<close>) and converts them to strings with \<^verbatim>\<open>+\<close>, so the
  model works on a datatype of JavaScript values.

  A number is NaN, an infinity or a finite value. The code only negates numbers,
  compares them with \<^verbatim>\<open><\<close> and converts them to strings; negation and comparison of
  doubles are exact, so a finite double is modelled by the real number it denotes.
  Positive and negative zero are both \<open>Fin 0\<close>: they are both falsy, compare equal and
  both print as \<^verbatim>\<open>0\<close>, and the code has no operation that tells them apart.
\<close>

datatype jsnum = NaN | Fin real | PosInf | NegInf

text \<open>
  \<open>JFun k\<close> is the function object with identity \<open>k\<close>. \<open>JObj s\<close> is an object that is
  neither an array nor a function and whose conversion to a primitive yields the string
  \<open>s\<close> (a plain object is \<open>JObj ''[object Object]''\<close>, an \<^verbatim>\<open>Error\<close> with message m is
  \<open>JObj ''Error: m''\<close>).
\<close>

datatype jsval =
    JUndefined
  | JNull
  | JBool bool
  | JNum jsnum
  | JStr string
  | JArr "jsval list"
  | JFun nat
  | JObj string

text \<open>
  The conversions of the language runtime that are no part of the repository are
  parameters of the model: the text of a finite number that is not a safe integer, the
  source text of a function, the number a string denotes, and the results of
  \<^verbatim>\<open>Math.random()\<close> in the order of the calls.
\<close>

record runtime =
  number_text :: "real \<Rightarrow> string"
  function_text :: "nat \<Rightarrow> string"
  string_number :: "string \<Rightarrow> jsnum"
  Math_random :: "nat \<Rightarrow> real"

fun truthy :: "jsval \<Rightarrow> bool" where
  "truthy JUndefined = False"
| "truthy JNull = False"
| "truthy (JBool b) = b"
| "truthy (JNum NaN) = False"
| "truthy (JNum (Fin r)) = (r \<noteq> 0)"
| "truthy (JNum PosInf) = True"
| "truthy (JNum NegInf) = True"
| "truthy (JStr s) = (s \<noteq> [])"
| "truthy (JArr xs) = True"
| "truthy (JFun k) = True"
| "truthy (JObj s) = True"

text \<open>\<^verbatim>\<open>typeof v === 'number'\<close>, \<^verbatim>\<open>Array.isArray(v)\<close> and \<^verbatim>\<open>typeof v === 'function'\<close>.\<close>

fun is_number :: "jsval \<Rightarrow> bool" where
  "is_number (JNum n) = True"
| "is_number v = False"

fun isArray :: "jsval \<Rightarrow> bool" where
  "isArray (JArr xs) = True"
| "isArray v = False"

fun is_function :: "jsval \<Rightarrow> bool" where
  "is_function (JFun k) = True"
| "is_function v = False"

text \<open>The value of \<^verbatim>\<open>a || b\<close>.\<close>

definition js_or :: "jsval \<Rightarrow> jsval \<Rightarrow> jsval" where
  "js_or a b = (if truthy a then a else b)"

subsection \<open>Conversion to strings\<close>

fun digits :: "nat \<Rightarrow> string" where
  "digits n =
     (if n < 10 then [''0123456789'' ! n]
      else digits (n div 10) @ [''0123456789'' ! (n mod 10)])"

declare digits.simps [simp del]

text \<open>
  Number to string: an integer of magnitude at most \<open>2^53\<close> prints as its decimal digits;
  the text of every other finite number is the runtime's.
\<close>

definition safe_integer :: "real \<Rightarrow> bool" where
  "safe_integer r = (r = of_int \<lfloor>r\<rfloor> \<and> \<bar>r\<bar> \<le> 2 ^ 53)"

fun NumberToString :: "runtime \<Rightarrow> jsnum \<Rightarrow> string" where
  "NumberToString rt NaN = ''NaN''"
| "NumberToString rt PosInf = ''Infinity''"
| "NumberToString rt NegInf = ''-Infinity''"
| "NumberToString rt (Fin r) =
     (if safe_integer r
      then (if r < 0 then ''-'' @ digits (nat (- \<lfloor>r\<rfloor>)) else digits (nat \<lfloor>r\<rfloor>))
      else number_text rt r)"

fun join :: "string \<Rightarrow> string list \<Rightarrow> string" where
  "join sep [] = []"
| "join sep [x] = x"
| "join sep (x # y # ys) = x @ sep @ join sep (y # ys)"

text \<open>
  \<^verbatim>\<open>'' + v\<close>. An array converts by joining its elements with a comma, where
  \<^verbatim>\<open>undefined\<close> and \<^verbatim>\<open>null\<close> elements give the empty string.
\<close>

fun ToString :: "runtime \<Rightarrow> jsval \<Rightarrow> string" where
  "ToString rt JUndefined = ''undefined''"
| "ToString rt JNull = ''null''"
| "ToString rt (JBool b) = (if b then ''true'' else ''false'')"
| "ToString rt (JNum n) = NumberToString rt n"
| "ToString rt (JStr s) = s"
| "ToString rt (JArr xs) =
     join '','' (map (\<lambda>x. if x = JUndefined \<or> x = JNull then [] else ToString rt x) xs)"
| "ToString rt (JFun k) = function_text rt k"
| "ToString rt (JObj s) = s"

text \<open>\<^verbatim>\<open>xs.join(sep)\<close> on the elements \<open>xs\<close> of an array.\<close>

definition Array_join :: "runtime \<Rightarrow> jsval list \<Rightarrow> string \<Rightarrow> string" where
  "Array_join rt xs sep =
     join sep (map (\<lambda>x. if x = JUndefined \<or> x = JNull then [] else ToString rt x) xs)"

subsection \<open>Conversion to numbers, negation, comparison\<close>

text \<open>
  An array, a function or an object converts to a number through its string.
\<close>

fun ToNumber :: "runtime \<Rightarrow> jsval \<Rightarrow> jsnum" where
  "ToNumber rt JUndefined = NaN"
| "ToNumber rt JNull = Fin 0"
| "ToNumber rt (JBool b) = (if b then Fin 1 else Fin 0)"
| "ToNumber rt (JNum n) = n"
| "ToNumber rt (JStr s) = string_number rt s"
| "ToNumber rt v = string_number rt (ToString rt v)"

text \<open>Unary minus on a number.\<close>

fun js_neg :: "jsnum \<Rightarrow> jsnum" where
  "js_neg NaN = NaN"
| "js_neg (Fin r) = Fin (- r)"
| "js_neg PosInf = NegInf"
| "js_neg NegInf = PosInf"

text \<open>\<^verbatim>\<open>a < b\<close> on numbers: false as soon as one side is NaN.\<close>

fun js_lt :: "jsnum \<Rightarrow> jsnum \<Rightarrow> bool" where
  "js_lt NaN b = False"
| "js_lt a NaN = False"
| "js_lt (Fin a) (Fin b) = (a < b)"
| "js_lt (Fin a) PosInf = True"
| "js_lt NegInf (Fin b) = True"
| "js_lt NegInf PosInf = True"
| "js_lt a b = False"

section \<open>The client and its world\<close>

text \<open>
  The fields of a \<^verbatim>\<open>Client\<close> that the operations read. \<open>mock\<close> is whatever the
  options held; the code tests its truthiness.
\<close>

record client =
  host :: string
  port :: nat
  prefix :: string
  suffix :: string
  mock :: jsval

text \<open>
  The callback that \<^verbatim>\<open>send\<close> receives is either the value the caller of \<^verbatim>\<open>sendAll\<close>
  supplied or the \<^verbatim>\<open>onSend\<close> closure of one \<^verbatim>\<open>sendAll\<close> call on an array; the number
  identifies the call.
\<close>

datatype cbref = Callback jsval | OnSend nat

text \<open>One call \<^verbatim>\<open>socket.send(buf, 0, buf.length, port, host, callback)\<close>.\<close>

record datagram =
  dg_buf :: string
  dg_offset :: nat
  dg_length :: nat
  dg_port :: nat
  dg_host :: string
  dg_callback :: cbref

text \<open>One invocation of a caller's callback: the function and its arguments.\<close>

datatype invocation = Invoke jsval "jsval list"

text \<open>
  The variables that the \<^verbatim>\<open>onSend\<close> closure of a \<^verbatim>\<open>sendAll\<close> call captures:
  \<^verbatim>\<open>completed\<close>, \<^verbatim>\<open>calledback\<close>, \<^verbatim>\<open>sentBytes\<close>, \<^verbatim>\<open>stat.length\<close> and \<^verbatim>\<open>callback\<close>.
  Byte counts are natural numbers: a datagram has at most 65535 bytes and an array fewer
  than \<open>2^32\<close> elements, so the sums stay below \<open>2^53\<close>, where the addition of doubles
  is exact.
\<close>

record batch =
  completed :: nat
  calledback :: bool
  sentBytes :: nat
  stat_length :: nat
  batch_callback :: jsval

text \<open>
  The world outside the client: the datagrams handed to the socket, the invocations of
  callers' callbacks (both oldest first), the closures of the \<^verbatim>\<open>sendAll\<close> calls on
  arrays, and the number of \<^verbatim>\<open>Math.random()\<close> calls made so far.
\<close>

record world =
  socket :: "datagram list"
  calls :: "invocation list"
  batches :: "batch list"
  draws :: nat

section \<open>The operations\<close>

subsection \<open>onSend\<close>

text \<open>
  \<^verbatim>\<open>onSend(error, bytes)\<close> on the captured variables: the new variables and the
  invocations of the caller's callback that the call makes.
\<close>

definition onSend :: "jsval \<Rightarrow> nat \<Rightarrow> batch \<Rightarrow> batch \<times> invocation list" where
  "onSend error bytes b0 =
     (let b = b0\<lparr>completed := completed b0 + 1\<rparr> in
      if calledback b \<or> \<not> is_function (batch_callback b) then (b, [])
      else if truthy error
      then (b\<lparr>calledback := True\<rparr>, [Invoke (batch_callback b) [error]])
      else
        (let b' = b\<lparr>sentBytes := sentBytes b + bytes\<rparr> in
         if completed b' = stat_length b'
         then (b', [Invoke (batch_callback b') [JNull, JNum (Fin (real (sentBytes b')))]])
         else (b', [])))"

text \<open>\<^verbatim>\<open>typeof callback === 'function'\<close> for the callback that \<^verbatim>\<open>send\<close> received.\<close>

fun callable :: "cbref \<Rightarrow> bool" where
  "callable (Callback f) = is_function f"
| "callable (OnSend i) = True"

text \<open>
  \<^verbatim>\<open>callback(error, bytes)\<close> for a callable callback. A closure always belongs to a
  \<^verbatim>\<open>sendAll\<close> call that has happened; for a number that names none nothing is done.
\<close>

fun invoke :: "cbref \<Rightarrow> jsval \<Rightarrow> nat \<Rightarrow> world \<Rightarrow> world" where
  "invoke (Callback f) error bytes w =
     w\<lparr>calls := calls w @ [Invoke f [error, JNum (Fin (real bytes))]]\<rparr>"
| "invoke (OnSend i) error bytes w =
     (if i < length (batches w)
      then (let (b, cs) = onSend error bytes (batches w ! i)
            in w\<lparr>batches := (batches w)[i := b], calls := calls w @ cs\<rparr>)
      else w)"

subsection \<open>send\<close>

text \<open>
  Lines 194 to 204 of \<^verbatim>\<open>send\<close>: the base line and the sampling decision. The result
  is \<open>None\<close> where the source returns early.
\<close>

definition sample :: "runtime \<Rightarrow> jsval \<Rightarrow> string \<Rightarrow> world \<Rightarrow> string option \<times> world" where
  "sample rt sampleRate message w =
     (if truthy sampleRate \<and> js_lt (ToNumber rt sampleRate) (Fin 1)
      then
        (let r = Math_random rt (draws w); w' = w\<lparr>draws := draws w + 1\<rparr> in
         if js_lt (Fin r) (ToNumber rt sampleRate)
         then (Some (message @ ''|@'' @ ToString rt sampleRate), w')
         else (None, w'))
      else (Some message, w))"

text \<open>Lines 206 to 208.\<close>

definition add_tags :: "runtime \<Rightarrow> jsval \<Rightarrow> string \<Rightarrow> string" where
  "add_tags rt tags message =
     (case tags of
        JArr xs \<Rightarrow> message @ ''|#'' @ Array_join rt xs '',''
      | _ \<Rightarrow> message)"

text \<open>
  Lines 210 to 218. \<^verbatim>\<open>new Buffer(message)\<close> holds the bytes of the message; the model
  keeps the message itself.
\<close>

definition transmit :: "client \<Rightarrow> string \<Rightarrow> cbref \<Rightarrow> world \<Rightarrow> world" where
  "transmit c message callback w =
     (if \<not> truthy (mock c)
      then w\<lparr>socket := socket w @
             [\<lparr>dg_buf = message, dg_offset = 0, dg_length = length message,
               dg_port = port c, dg_host = host c, dg_callback = callback\<rparr>]\<rparr>
      else if callable callback then invoke callback JNull 0 w
      else w)"

definition send ::
  "runtime \<Rightarrow> client \<Rightarrow> jsval \<Rightarrow> jsval \<Rightarrow> jsval \<Rightarrow> jsval \<Rightarrow> jsval \<Rightarrow> cbref \<Rightarrow> world \<Rightarrow> world" where
  "send rt c stat value type sampleRate tags callback w =
     (let message = prefix c @ ToString rt stat @ suffix c @ '':'' @ ToString rt value
                      @ ''|'' @ ToString rt type
      in case sample rt sampleRate message w of
           (None, w') \<Rightarrow> w'
         | (Some message', w') \<Rightarrow> transmit c (add_tags rt tags message') callback w')"

subsection \<open>sendAll\<close>

text \<open>Lines 142 to 151: the shift of the optional positional arguments.\<close>

definition disambiguate :: "jsval \<Rightarrow> jsval \<Rightarrow> jsval \<Rightarrow> jsval \<times> jsval \<times> jsval" where
  "disambiguate sampleRate tags callback =
     (let (sampleRate1, tags1, callback1) =
            (if truthy sampleRate \<and> \<not> is_number sampleRate
             then (JUndefined, sampleRate, tags)
             else (sampleRate, tags, callback))
      in if truthy tags1 \<and> \<not> isArray tags1
         then (sampleRate1, JUndefined, tags1)
         else (sampleRate1, tags1, callback1))"

text \<open>
  The closure variables of a call on an array of \<open>n\<close> names. (On a single name the
  source declares them too and never uses them.)
\<close>

definition new_batch :: "nat \<Rightarrow> jsval \<Rightarrow> batch" where
  "new_batch n callback =
     \<lparr>completed = 0, calledback = False, sentBytes = 0, stat_length = n,
      batch_callback = callback\<rparr>"

definition sendAll ::
  "runtime \<Rightarrow> client \<Rightarrow> jsval \<Rightarrow> jsval \<Rightarrow> jsval \<Rightarrow> jsval \<Rightarrow> jsval \<Rightarrow> jsval \<Rightarrow> world \<Rightarrow> world" where
  "sendAll rt c stat value type sampleRate tags callback w =
     (case disambiguate sampleRate tags callback of
        (sampleRate', tags', callback') \<Rightarrow>
          (case stat of
             JArr items \<Rightarrow>
               foldl (\<lambda>w' item. send rt c item value type sampleRate' tags'
                                   (OnSend (length (batches w))) w')
                 (w\<lparr>batches := batches w @ [new_batch (length items) callback']\<rparr>) items
           | _ \<Rightarrow> send rt c stat value type sampleRate' tags' (Callback callback') w))"

subsection \<open>The typed operations\<close>

definition timing ::
  "runtime \<Rightarrow> client \<Rightarrow> jsval \<Rightarrow> jsval \<Rightarrow> jsval \<Rightarrow> jsval \<Rightarrow> jsval \<Rightarrow> world \<Rightarrow> world" where
  "timing rt c stat time sampleRate tags callback w =
     sendAll rt c stat time (JStr ''ms'') sampleRate tags callback w"

definition increment ::
  "runtime \<Rightarrow> client \<Rightarrow> jsval \<Rightarrow> jsval \<Rightarrow> jsval \<Rightarrow> jsval \<Rightarrow> jsval \<Rightarrow> world \<Rightarrow> world" where
  "increment rt c stat value sampleRate tags callback w =
     sendAll rt c stat (js_or value (JNum (Fin 1))) (JStr ''c'') sampleRate tags callback w"

definition decrement ::
  "runtime \<Rightarrow> client \<Rightarrow> jsval \<Rightarrow> jsval \<Rightarrow> jsval \<Rightarrow> jsval \<Rightarrow> jsval \<Rightarrow> world \<Rightarrow> world" where
  "decrement rt c stat value sampleRate tags callback w =
     sendAll rt c stat (js_or (JNum (js_neg (ToNumber rt value))) (JNum (Fin (- 1))))
       (JStr ''c'') sampleRate tags callback w"

definition histogram ::
  "runtime \<Rightarrow> client \<Rightarrow> jsval \<Rightarrow> jsval \<Rightarrow> jsval \<Rightarrow> jsval \<Rightarrow> jsval \<Rightarrow> world \<Rightarrow> world" where
  "histogram rt c stat value sampleRate tags callback w =
     sendAll rt c stat value (JStr ''h'') sampleRate tags callback w"

definition gauge ::
  "runtime \<Rightarrow> client \<Rightarrow> jsval \<Rightarrow> jsval \<Rightarrow> jsval \<Rightarrow> jsval \<Rightarrow> jsval \<Rightarrow> world \<Rightarrow> world" where
  "gauge rt c stat value sampleRate tags callback w =
     sendAll rt c stat value (JStr ''g'') sampleRate tags callback w"

text \<open>\<^verbatim>\<open>unique\<close> and \<^verbatim>\<open>set\<close> are one function.\<close>

definition unique ::
  "runtime \<Rightarrow> client \<Rightarrow> jsval \<Rightarrow> jsval \<Rightarrow> jsval \<Rightarrow> jsval \<Rightarrow> jsval \<Rightarrow> world \<Rightarrow> world" where
  "unique rt c stat value sampleRate tags callback w =
     sendAll rt c stat value (JStr ''s'') sampleRate tags callback w"

section \<open>The transport\<close>

text \<open>
  The socket reports the completion of a datagram by calling the callback it was given
  with an error or null and the number of bytes sent. A callback that is no function
  is not called.
\<close>

definition complete :: "cbref \<Rightarrow> jsval \<times> nat \<Rightarrow> world \<Rightarrow> world" where
  "complete cb ev w = (if callable cb then invoke cb (fst ev) (snd ev) w else w)"

text \<open>A sequence of completions for datagrams that carry the same callback.\<close>

definition completions :: "cbref \<Rightarrow> (jsval \<times> nat) list \<Rightarrow> world \<Rightarrow> world" where
  "completions cb evs w = foldl (\<lambda>w' ev. complete cb ev w') w evs"

section \<open>Notions for the statements\<close>

text \<open>
  The condition of line 197, and the send that makes draw number \<open>k\<close> of
  \<^verbatim>\<open>Math.random()\<close> returning at line 202.
\<close>

definition sampling :: "runtime \<Rightarrow> jsval \<Rightarrow> bool" where
  "sampling rt sampleRate = (truthy sampleRate \<and> js_lt (ToNumber rt sampleRate) (Fin 1))"

definition dropped :: "runtime \<Rightarrow> jsval \<Rightarrow> nat \<Rightarrow> bool" where
  "dropped rt sampleRate k =
     (sampling rt sampleRate \<and> \<not> js_lt (Fin (Math_random rt k)) (ToNumber rt sampleRate))"

text \<open>The calls \<^verbatim>\<open>onSend(error, bytes)\<close> of a list of completions, one after the other.\<close>

fun run_onSend :: "(jsval \<times> nat) list \<Rightarrow> batch \<Rightarrow> batch \<times> invocation list" where
  "run_onSend [] b = (b, [])"
| "run_onSend (ev # evs) b =
     (case onSend (fst ev) (snd ev) b of
        (b', cs) \<Rightarrow> (case run_onSend evs b' of (b'', cs') \<Rightarrow> (b'', cs @ cs')))"

text \<open>The base line of line 194, and the datagram of line 213.\<close>

definition line :: "runtime \<Rightarrow> client \<Rightarrow> jsval \<Rightarrow> jsval \<Rightarrow> jsval \<Rightarrow> string" where
  "line rt c stat value type =
     prefix c @ ToString rt stat @ suffix c @ '':'' @ ToString rt value @ ''|'' @ ToString rt type"

definition handed :: "client \<Rightarrow> string \<Rightarrow> cbref \<Rightarrow> datagram" where
  "handed c message callback =
     \<lparr>dg_buf = message, dg_offset = 0, dg_length = length message,
      dg_port = port c, dg_host = host c, dg_callback = callback\<rparr>"

text \<open>
  How many of \<open>n\<close> successive sends with the same sample rate are not dropped, when
  \<open>d\<close> draws were made before the first: a send draws only where it samples.
\<close>

fun kept :: "runtime \<Rightarrow> jsval \<Rightarrow> nat \<Rightarrow> nat \<Rightarrow> nat" where
  "kept rt sr d 0 = 0"
| "kept rt sr d (Suc n) = (if dropped rt sr d then 0 else 1) + kept rt sr (if sampling rt sr then Suc d else d) n"

text \<open>The effect on the world of a list of \<^verbatim>\<open>onSend\<close> calls of closure \<open>i\<close>.\<close>

definition apply_batch :: "nat \<Rightarrow> (jsval \<times> nat) list \<Rightarrow> world \<Rightarrow> world" where
  "apply_batch i evs w =
     w\<lparr>batches := (batches w)[i := fst (run_onSend evs (batches w ! i))],
       calls := calls w @ snd (run_onSend evs (batches w ! i))\<rparr>"

text \<open>
  The completions that \<^verbatim>\<open>onSend\<close> receives inside a \<^verbatim>\<open>sendAll\<close> call on \<open>n\<close> names:
  on a mock client every send that is not dropped calls it with \<^verbatim>\<open>(null, 0)\<close>; on any
  other client the calls come later, from the transport.
\<close>

definition synchronous :: "runtime \<Rightarrow> client \<Rightarrow> jsval \<Rightarrow> world \<Rightarrow> nat \<Rightarrow> (jsval \<times> nat) list" where
  "synchronous rt c sr w n =
     (if truthy (mock c) then replicate (kept rt sr (draws w) n) (JNull, 0) else [])"

text \<open>The public operations of a client that take the optional arguments.\<close>

datatype operation = Timing | Increment | Decrement | Histogram | Gauge | Unique | SendAll jsval

fun perform ::
  "operation \<Rightarrow> runtime \<Rightarrow> client \<Rightarrow> jsval \<Rightarrow> jsval \<Rightarrow> jsval \<Rightarrow> jsval \<Rightarrow> jsval \<Rightarrow> world \<Rightarrow> world" where
  "perform Timing rt c stat value = timing rt c stat value"
| "perform Increment rt c stat value = increment rt c stat value"
| "perform Decrement rt c stat value = decrement rt c stat value"
| "perform Histogram rt c stat value = histogram rt c stat value"
| "perform Gauge rt c stat value = gauge rt c stat value"
| "perform Unique rt c stat value = unique rt c stat value"
| "perform (SendAll type) rt c stat value = sendAll rt c stat value type"

text \<open>
  No send of a call is dropped by sampling, and the call has a send at all: a single
  name makes one draw at most, the names of an array one each.
\<close>

definition delivered :: "runtime \<Rightarrow> jsval \<Rightarrow> jsval \<Rightarrow> world \<Rightarrow> bool" where
  "delivered rt stat sr w =
     (case stat of
        JArr names \<Rightarrow> names \<noteq> [] \<and> (\<forall>k<length names. \<not> dropped rt sr (draws w + k))
      | _ \<Rightarrow> \<not> dropped rt sr (draws w))"

text \<open>
  The call shapes of the specification: after the value come the sample rate, the tags
  and the callback, each present or absent, in this order and without gaps. A parameter
  that the caller leaves out is \<^verbatim>\<open>undefined\<close>.
\<close>

definition call_shape :: "jsnum option \<Rightarrow> jsval list option \<Rightarrow> nat option \<Rightarrow> jsval list" where
  "call_shape sampleRate tags callback =
     (case sampleRate of None \<Rightarrow> [] | Some n \<Rightarrow> [JNum n]) @
     (case tags of None \<Rightarrow> [] | Some xs \<Rightarrow> [JArr xs]) @
     (case callback of None \<Rightarrow> [] | Some k \<Rightarrow> [JFun k])"

definition argument :: "jsval list \<Rightarrow> nat \<Rightarrow> jsval" where
  "argument args i = (if i < length args then args ! i else JUndefined)"

definition optional :: "('a \<Rightarrow> jsval) \<Rightarrow> 'a option \<Rightarrow> jsval" where
  "optional f x = (case x of None \<Rightarrow> JUndefined | Some v \<Rightarrow> f v)"

section \<open>Example inputs\<close>

text \<open>
  A runtime whose \<^verbatim>\<open>Math.random()\<close> returns the given numbers in turn (and 0 after
  them) and that prints the one fraction of the examples, 0.5; a client with the
  defaults of the constructor; the same client in mock mode; a world in which nothing
  has happened.
\<close>

definition runtime_with :: "real list \<Rightarrow> runtime" where
  "runtime_with rs =
     \<lparr>number_text = (\<lambda>r. ''0.5''),
      function_text = (\<lambda>k. ''function () {}''),
      string_number = (\<lambda>s. NaN),
      Math_random = (\<lambda>k. if k < length rs then rs ! k else 0)\<rparr>"

definition default_client :: client where
  "default_client =
     \<lparr>host = ''localhost'', port = 8125, prefix = [], suffix = [], mock = JUndefined\<rparr>"

definition mock_client :: client where
  "mock_client = default_client\<lparr>mock := JBool True\<rparr>"

definition empty_world :: world where
  "empty_world = \<lparr>socket = [], calls = [], batches = [], draws = 0\<rparr>"

section \<open>Lemmas on the operations\<close>

lemma sample_cases:
  "sample rt sr m w =
     (if sampling rt sr
      then (if dropped rt sr (draws w) then None else Some (m @ ''|@'' @ ToString rt sr),
            w\<lparr>draws := draws w + 1\<rparr>)
      else (Some m, w))"
  by (simp add: sample_def sampling_def dropped_def Let_def)

lemma send_real:
  "\<not> truthy (mock c) \<Longrightarrow>
   send rt c stat value type sr tags cb w =
     (if sampling rt sr
      then (if dropped rt sr (draws w) then w\<lparr>draws := draws w + 1\<rparr>
            else w\<lparr>draws := draws w + 1,
                   socket := socket w @
                     [handed c (add_tags rt tags (line rt c stat value type @ ''|@'' @ ToString rt sr)) cb]\<rparr>)
      else w\<lparr>socket := socket w @ [handed c (add_tags rt tags (line rt c stat value type)) cb]\<rparr>)"
  by (simp add: send_def sample_cases transmit_def line_def handed_def Let_def)

lemma send_mock:
  "truthy (mock c) \<Longrightarrow>
   send rt c stat value type sr tags cb w =
     (if dropped rt sr (draws w) then w\<lparr>draws := draws w + 1\<rparr>
      else let w' = (if sampling rt sr then w\<lparr>draws := draws w + 1\<rparr> else w)
           in if callable cb then invoke cb JNull 0 w' else w')"
  by (simp add: send_def sample_cases transmit_def dropped_def Let_def)


lemma onSend_completed [simp]: "completed (fst (onSend e n b)) = completed b + 1"
  by (simp add: onSend_def Let_def)

lemma onSend_stat_length [simp]: "stat_length (fst (onSend e n b)) = stat_length b"
  by (simp add: onSend_def Let_def)

lemma onSend_batch_callback [simp]: "batch_callback (fst (onSend e n b)) = batch_callback b"
  by (simp add: onSend_def Let_def)

lemma onSend_calledback:
  "calledback b \<Longrightarrow> calledback (fst (onSend e n b)) \<and> snd (onSend e n b) = []"
  by (simp add: onSend_def Let_def)

lemma onSend_no_function:
  "\<not> is_function (batch_callback b) \<Longrightarrow> snd (onSend e n b) = []"
  by (simp add: onSend_def Let_def)

lemma run_onSend_Cons_fst:
  "fst (run_onSend (ev # evs) b) = fst (run_onSend evs (fst (onSend (fst ev) (snd ev) b)))"
  by (simp split: prod.splits)

lemma run_onSend_Cons_snd:
  "snd (run_onSend (ev # evs) b) =
     snd (onSend (fst ev) (snd ev) b) @ snd (run_onSend evs (fst (onSend (fst ev) (snd ev) b)))"
  by (simp split: prod.splits)

lemma run_onSend_append_fst:
  "fst (run_onSend (xs @ ys) b) = fst (run_onSend ys (fst (run_onSend xs b)))"
  by (induction xs arbitrary: b) (simp_all add: run_onSend_Cons_fst del: run_onSend.simps(2))

lemma run_onSend_append_snd:
  "snd (run_onSend (xs @ ys) b) =
     snd (run_onSend xs b) @ snd (run_onSend ys (fst (run_onSend xs b)))"
  by (induction xs arbitrary: b)
     (simp_all add: run_onSend_Cons_fst run_onSend_Cons_snd del: run_onSend.simps(2))


lemma run_onSend_stat_length:
  "stat_length (fst (run_onSend evs b)) = stat_length b"
  by (induction evs arbitrary: b) (simp_all add: run_onSend_Cons_fst del: run_onSend.simps(2))

lemma run_onSend_batch_callback:
  "batch_callback (fst (run_onSend evs b)) = batch_callback b"
  by (induction evs arbitrary: b) (simp_all add: run_onSend_Cons_fst del: run_onSend.simps(2))

lemma run_onSend_calledback:
  "calledback b \<Longrightarrow> snd (run_onSend evs b) = [] \<and> calledback (fst (run_onSend evs b))"
  by (induction evs arbitrary: b)
     (simp_all add: run_onSend_Cons_fst run_onSend_Cons_snd onSend_calledback
        del: run_onSend.simps(2))

lemma run_onSend_no_function:
  "\<not> is_function (batch_callback b) \<Longrightarrow> snd (run_onSend evs b) = []"
  by (induction evs arbitrary: b)
     (simp_all add: run_onSend_Cons_fst run_onSend_Cons_snd onSend_no_function
        del: run_onSend.simps(2))

text \<open>Successful completions that leave the batch short of its total call nothing.\<close>

lemma run_onSend_pending:
  "\<not> calledback b \<Longrightarrow> is_function (batch_callback b) \<Longrightarrow>
   \<forall>ev \<in> set evs. \<not> truthy (fst ev) \<Longrightarrow>
   completed b + length evs < stat_length b \<Longrightarrow>
   run_onSend evs b =
     (b\<lparr>completed := completed b + length evs,
        sentBytes := sentBytes b + sum_list (map snd evs)\<rparr>, [])"
proof (induction evs arbitrary: b)
  case Nil
  then show ?case by simp
next
  case (Cons ev evs)
  let ?b = "b\<lparr>completed := completed b + 1, sentBytes := sentBytes b + snd ev\<rparr>"
  have step: "onSend (fst ev) (snd ev) b = (?b, [])"
    using Cons.prems by (simp add: onSend_def Let_def)
  have "run_onSend evs ?b =
          (?b\<lparr>completed := completed ?b + length evs,
              sentBytes := sentBytes ?b + sum_list (map snd evs)\<rparr>, [])"
    using Cons.prems by (intro Cons.IH) auto
  then show ?case using step by (simp add: add.assoc)
qed

text \<open>The successful completion that makes the count reach the total calls back once.\<close>

lemma run_onSend_all:
  assumes "\<not> calledback b" and "is_function (batch_callback b)"
    and "\<forall>ev \<in> set evs. \<not> truthy (fst ev)"
    and "completed b + length evs = stat_length b" and "evs \<noteq> []"
  shows "snd (run_onSend evs b) =
           [Invoke (batch_callback b)
              [JNull, JNum (Fin (real (sentBytes b + sum_list (map snd evs))))]]"
proof -
  obtain pre ev where evs: "evs = pre @ [ev]"
    using assms(5) by (metis rev_exhaust)
  let ?b = "b\<lparr>completed := completed b + length pre,
               sentBytes := sentBytes b + sum_list (map snd pre)\<rparr>"
  have pre: "run_onSend pre b = (?b, [])"
    using assms evs by (intro run_onSend_pending) auto
  have "snd (onSend (fst ev) (snd ev) ?b) =
          [Invoke (batch_callback b)
             [JNull, JNum (Fin (real (sentBytes b + sum_list (map snd pre) + snd ev)))]]"
    using assms evs by (simp add: onSend_def Let_def)
  then show ?thesis
    using pre evs by (simp add: run_onSend_append_snd add.assoc split: prod.splits)
qed

text \<open>The first completion with an error calls back with it, and nothing else does.\<close>

lemma run_onSend_error:
  assumes "\<not> calledback b" and "is_function (batch_callback b)"
    and "\<forall>ev \<in> set pre. \<not> truthy (fst ev)" and "truthy e"
    and "completed b + length pre < stat_length b"
  shows "snd (run_onSend (pre @ (e, n) # post) b) = [Invoke (batch_callback b) [e]]"
proof -
  let ?b = "b\<lparr>completed := completed b + length pre,
               sentBytes := sentBytes b + sum_list (map snd pre)\<rparr>"
  have pre: "run_onSend pre b = (?b, [])"
    using assms by (intro run_onSend_pending) auto
  have step: "onSend e n ?b =
          (?b\<lparr>completed := completed ?b + 1, calledback := True\<rparr>,
           [Invoke (batch_callback b) [e]])"
    using assms by (simp add: onSend_def Let_def)
  have "snd (run_onSend post (?b\<lparr>completed := completed ?b + 1, calledback := True\<rparr>)) = []"
    by (intro conjunct1 [OF run_onSend_calledback]) simp
  then show ?thesis
    using pre step by (simp add: run_onSend_append_snd run_onSend_Cons_snd del: run_onSend.simps(2))
qed

text \<open>No run of at most as many completions as the batch awaits calls back twice.\<close>

lemma run_onSend_at_most_once:
  assumes "\<not> calledback b" and "completed b + length evs \<le> stat_length b"
  shows "length (snd (run_onSend evs b)) \<le> 1"
proof (cases "is_function (batch_callback b)")
  case False
  then show ?thesis by (simp add: run_onSend_no_function)
next
  case True
  show ?thesis
  proof (cases "\<forall>ev \<in> set evs. \<not> truthy (fst ev)")
    case all: True
    show ?thesis
    proof (cases "completed b + length evs < stat_length b")
      case True
      then show ?thesis using run_onSend_pending [OF assms(1) \<open>is_function (batch_callback b)\<close> all] by simp
    next
      case False
      then have eq: "completed b + length evs = stat_length b" using assms(2) by simp
      show ?thesis
      proof (cases "evs = []")
        case True
        then show ?thesis by simp
      next
        case False
        then show ?thesis
          using run_onSend_all [OF assms(1) \<open>is_function (batch_callback b)\<close> all eq] by simp
      qed
    qed
  next
    case False
    then obtain pre ev post where
      split: "evs = pre @ ev # post" "truthy (fst ev)" "\<forall>x \<in> set pre. \<not> truthy (fst x)"
      using split_list_first_prop [of evs "\<lambda>ev. truthy (fst ev)"] by auto
    then have "completed b + length pre < stat_length b" using assms(2) by simp
    then have "snd (run_onSend (pre @ (fst ev, snd ev) # post) b) = [Invoke (batch_callback b) [fst ev]]"
      using split assms(1) True by (intro run_onSend_error) auto
    then show ?thesis using split by simp
  qed
qed

lemma apply_batch_Nil [simp]: "apply_batch i [] w = w"
  by (simp add: apply_batch_def)

lemma apply_batch_append:
  "i < length (batches w) \<Longrightarrow>
   apply_batch i (xs @ ys) w = apply_batch i ys (apply_batch i xs w)"
  by (simp add: apply_batch_def run_onSend_append_fst run_onSend_append_snd)

lemma apply_batch_frame [simp]:
  "socket (apply_batch i evs w) = socket w"
  "draws (apply_batch i evs w) = draws w"
  "length (batches (apply_batch i evs w)) = length (batches w)"
  by (simp_all add: apply_batch_def)

lemma invoke_OnSend:
  "i < length (batches w) \<Longrightarrow> invoke (OnSend i) e n w = apply_batch i [(e, n)] w"
  by (simp add: apply_batch_def split: prod.splits)

lemma completions_OnSend:
  "i < length (batches w) \<Longrightarrow> completions (OnSend i) evs w = apply_batch i evs w"
proof (induction evs arbitrary: w rule: rev_induct)
  case Nil
  then show ?case by (simp add: completions_def)
next
  case (snoc ev evs)
  have "completions (OnSend i) (evs @ [ev]) w = complete (OnSend i) ev (completions (OnSend i) evs w)"
    by (simp add: completions_def)
  also have "\<dots> = invoke (OnSend i) (fst ev) (snd ev) (apply_batch i evs w)"
    using snoc by (simp add: complete_def)
  also have "\<dots> = apply_batch i [ev] (apply_batch i evs w)"
    using snoc.prems by (simp add: invoke_OnSend del: invoke.simps)
  finally show ?case using snoc.prems by (simp add: apply_batch_append)
qed

lemma kept_le: "kept rt sr d n \<le> n"
  by (induction n arbitrary: d) (simp_all add: le_SucI)

lemma kept_no_sampling: "\<not> sampling rt sr \<Longrightarrow> kept rt sr d n = n"
  by (induction n arbitrary: d) (simp_all add: dropped_def)

lemma kept_all:
  "(kept rt sr d n = n) = (\<forall>k<n. \<not> dropped rt sr (d + k))"
proof (cases "sampling rt sr")
  case False
  then show ?thesis by (simp add: kept_no_sampling dropped_def)
next
  case True
  show ?thesis
  proof (induction n arbitrary: d)
    case 0
    then show ?case by simp
  next
    case (Suc n)
    have le: "kept rt sr (Suc d) n \<le> n" by (rule kept_le)
    have "(\<forall>k<Suc n. \<not> dropped rt sr (d + k)) =
            (\<not> dropped rt sr d \<and> (\<forall>k<n. \<not> dropped rt sr (Suc d + k)))"
      by (auto simp: less_Suc_eq_0_disj)
    then show ?case using True Suc [of "Suc d"] le by auto
  qed
qed

text \<open>The sends of a call on an array, on a client that is no mock.\<close>

lemma sends_real:
  assumes "\<not> truthy (mock c)"
  shows "\<exists>ds. foldl (\<lambda>w' item. send rt c item value type sr tags cb w') w items =
           w\<lparr>draws := draws w + (if sampling rt sr then length items else 0),
             socket := socket w @ ds\<rparr> \<and>
           length ds = kept rt sr (draws w) (length items) \<and>
           (\<forall>d \<in> set ds. dg_callback d = cb)"
proof (induction items arbitrary: w)
  case Nil
  then show ?case by simp
next
  case (Cons item items)
  let ?w1 = "send rt c item value type sr tags cb w"
  obtain ds where ds:
    "foldl (\<lambda>w' item. send rt c item value type sr tags cb w') ?w1 items =
       ?w1\<lparr>draws := draws ?w1 + (if sampling rt sr then length items else 0),
           socket := socket ?w1 @ ds\<rparr>"
    "length ds = kept rt sr (draws ?w1) (length items)"
    "\<forall>d \<in> set ds. dg_callback d = cb"
    using Cons.IH [of ?w1] by blast
  show ?case
  proof (cases "dropped rt sr (draws w)")
    case True
    then have "sampling rt sr" by (simp add: dropped_def)
    then have w1: "?w1 = w\<lparr>draws := draws w + 1\<rparr>"
      using assms True by (simp add: send_real)
    show ?thesis
      using ds True \<open>sampling rt sr\<close> by (intro exI [of _ ds]) (simp add: w1)
  next
    case False
    let ?m = "add_tags rt tags (if sampling rt sr
                then line rt c item value type @ ''|@'' @ ToString rt sr
                else line rt c item value type)"
    have w1: "?w1 = w\<lparr>draws := draws w + (if sampling rt sr then 1 else 0),
                       socket := socket w @ [handed c ?m cb]\<rparr>"
      using assms False by (simp add: send_real)
    show ?thesis
      using ds False
      by (intro exI [of _ "handed c ?m cb # ds"]) (auto simp: w1 handed_def)
  qed
qed

text \<open>The same sends on a mock client: every send that is not dropped calls \<^verbatim>\<open>onSend\<close>.\<close>

lemma sends_mock:
  assumes "truthy (mock c)" and "i < length (batches w)"
  shows "foldl (\<lambda>w' item. send rt c item value type sr tags (OnSend i) w') w items =
           (apply_batch i (replicate (kept rt sr (draws w) (length items)) (JNull, 0)) w)
             \<lparr>draws := draws w + (if sampling rt sr then length items else 0)\<rparr>"
  using assms(2)
proof (induction items arbitrary: w)
  case Nil
  then show ?case by simp
next
  case (Cons item items)
  let ?w1 = "send rt c item value type sr tags (OnSend i) w"
  show ?case
  proof (cases "dropped rt sr (draws w)")
    case True
    then have s: "sampling rt sr" by (simp add: dropped_def)
    then have w1: "?w1 = w\<lparr>draws := draws w + 1\<rparr>"
      using assms True by (simp add: send_mock)
    have "i < length (batches ?w1)" using Cons.prems w1 by simp
    from Cons.IH [OF this] show ?thesis
      using True s by (simp add: w1 apply_batch_def)
  next
    case False
    have w1: "?w1 = (apply_batch i [(JNull, 0)] w)
                       \<lparr>draws := draws w + (if sampling rt sr then 1 else 0)\<rparr>"
      using assms(1) False Cons.prems
      by (simp add: send_mock invoke_OnSend Let_def del: invoke.simps) (simp add: apply_batch_def)
    have "i < length (batches ?w1)" using Cons.prems w1 by simp
    from Cons.IH [OF this] show ?thesis
      using False Cons.prems
      by (simp add: w1 apply_batch_def run_onSend_Cons_fst run_onSend_Cons_snd
            del: run_onSend.simps(2))
  qed
qed

lemma floor_minus_one_real: "\<lfloor>- 1 :: real\<rfloor> = - 1"
  using floor_of_int [of "- 1", where ?'a = real] by simp

lemma NumberToString_minus_one: "NumberToString rt (Fin (- 1)) = ''-1''"
  by (simp add: safe_integer_def digits.simps floor_minus_one_real)

lemma sendAll_array_unfold:
  assumes "disambiguate sampleRate tags callback = (sr, tg, cb)"
  shows "sendAll rt c (JArr names) value type sampleRate tags callback w =
           foldl (\<lambda>w' item. send rt c item value type sr tg (OnSend (length (batches w))) w')
             (w\<lparr>batches := batches w @ [new_batch (length names) cb]\<rparr>) names"
  using assms by (simp add: sendAll_def)

lemma sendAll_array_socket:
  assumes "disambiguate sampleRate tags callback = (sr, tg, cb)"
  shows "\<exists>ds. socket (sendAll rt c (JArr names) value type sampleRate tags callback w) = socket w @ ds \<and>
           length ds = (if truthy (mock c) then 0 else kept rt sr (draws w) (length names)) \<and>
           (\<forall>d \<in> set ds. dg_callback d = OnSend (length (batches w)))"
proof (cases "truthy (mock c)")
  case True
  then show ?thesis
    by (simp add: sendAll_array_unfold [OF assms] sends_mock)
next
  case False
  let ?W = "w\<lparr>batches := batches w @ [new_batch (length names) cb]\<rparr>"
  obtain ds where
    "foldl (\<lambda>w' item. send rt c item value type sr tg (OnSend (length (batches w))) w') ?W names =
       ?W\<lparr>draws := draws ?W + (if sampling rt sr then length names else 0),
           socket := socket ?W @ ds\<rparr>"
    "length ds = kept rt sr (draws ?W) (length names)"
    "\<forall>d \<in> set ds. dg_callback d = OnSend (length (batches w))"
    using sends_real [OF False, of rt "value" "type" sr tg "OnSend (length (batches w))" ?W names]
    by blast
  then show ?thesis
    using False by (intro exI [of _ ds]) (simp add: sendAll_array_unfold [OF assms])
qed

lemma sendAll_array_run:
  assumes "disambiguate sampleRate tags callback = (sr, tg, cb)"
  shows "calls (completions (OnSend (length (batches w))) evs
                 (sendAll rt c (JArr names) value type sampleRate tags callback w)) =
           calls w @ snd (run_onSend (synchronous rt c sr w (length names) @ evs)
                            (new_batch (length names) cb))"
    and "batches (completions (OnSend (length (batches w))) evs
                 (sendAll rt c (JArr names) value type sampleRate tags callback w)) ! length (batches w) =
           fst (run_onSend (synchronous rt c sr w (length names) @ evs)
                  (new_batch (length names) cb))"
proof -
  let ?i = "length (batches w)"
  let ?W = "w\<lparr>batches := batches w @ [new_batch (length names) cb]\<rparr>"
  let ?w1 = "sendAll rt c (JArr names) value type sampleRate tags callback w"
  have i: "?i < length (batches ?W)" by simp
  have w1: "\<exists>ds. ?w1 = (apply_batch ?i (synchronous rt c sr w (length names)) ?W)
                 \<lparr>draws := draws w + (if sampling rt sr then length names else 0),
                  socket := socket w @ ds\<rparr>"
  proof (cases "truthy (mock c)")
    case True
    show ?thesis
      using sends_mock [OF True i, of rt "value" "type" sr tg names] True
      by (intro exI [of _ "[]"]) (simp add: sendAll_array_unfold [OF assms] synchronous_def)
  next
    case False
    show ?thesis
      using sends_real [OF False, of rt "value" "type" sr tg "OnSend ?i" ?W names] False
      by (auto simp: sendAll_array_unfold [OF assms] synchronous_def)
  qed
  then obtain ds where w1: "?w1 = (apply_batch ?i (synchronous rt c sr w (length names)) ?W)
                 \<lparr>draws := draws w + (if sampling rt sr then length names else 0),
                  socket := socket w @ ds\<rparr>" by blast
  have len: "?i < length (batches ?w1)" by (simp add: w1)
  have "completions (OnSend ?i) evs ?w1 = apply_batch ?i evs ?w1"
    using len by (rule completions_OnSend)
  then show
    "calls (completions (OnSend ?i) evs ?w1) =
       calls w @ snd (run_onSend (synchronous rt c sr w (length names) @ evs)
                        (new_batch (length names) cb))"
    "batches (completions (OnSend ?i) evs ?w1) ! ?i =
       fst (run_onSend (synchronous rt c sr w (length names) @ evs)
              (new_batch (length names) cb))"
    by (simp_all add: w1 apply_batch_def run_onSend_append_fst run_onSend_append_snd)
qed

lemma new_batch_simps [simp]:
  "completed (new_batch n cb) = 0" "\<not> calledback (new_batch n cb)"
  "sentBytes (new_batch n cb) = 0" "stat_length (new_batch n cb) = n"
  "batch_callback (new_batch n cb) = cb"
  by (simp_all add: new_batch_def)

lemma synchronous_length:
  "length (synchronous rt c sr w n) = (if truthy (mock c) then kept rt sr (draws w) n else 0)"
  by (simp add: synchronous_def)

lemma synchronous_ok: "\<forall>ev \<in> set (synchronous rt c sr w n). \<not> truthy (fst ev)"
  by (simp add: synchronous_def)

lemma synchronous_bytes: "sum_list (map snd (synchronous rt c sr w n)) = 0"
  by (simp add: synchronous_def)

text \<open>
  What \<^verbatim>\<open>onSend\<close> sees of a call on an array: the completions inside \<^verbatim>\<open>sendAll\<close> and
  those of the transport are together at most as many as sends were not dropped.
\<close>

lemma sendAll_array_seen:
  assumes "disambiguate sampleRate tags callback = (sr, tg, cb)"
    and "w1 = sendAll rt c (JArr names) value type sampleRate tags callback w"
  shows "length (synchronous rt c sr w (length names)) + (length (socket w1) - length (socket w)) =
           kept rt sr (draws w) (length names)"
  using sendAll_array_socket [OF assms(1), of rt c names "value" "type" w] assms(2)
  by (auto simp: synchronous_length)

lemma run_onSend_short:
  assumes "\<not> calledback b" and "completed b + length evs < stat_length b"
  shows "\<forall>x \<in> set (snd (run_onSend evs b)). \<exists>e. truthy e \<and> x = Invoke (batch_callback b) [e]"
    and "\<forall>ev \<in> set evs. \<not> truthy (fst ev) \<Longrightarrow> snd (run_onSend evs b) = []"
proof -
  show "\<forall>x \<in> set (snd (run_onSend evs b)). \<exists>e. truthy e \<and> x = Invoke (batch_callback b) [e]"
  proof (cases "is_function (batch_callback b)")
    case False
    then show ?thesis by (simp add: run_onSend_no_function)
  next
    case True
    show ?thesis
    proof (cases "\<forall>ev \<in> set evs. \<not> truthy (fst ev)")
      case all: True
      show ?thesis using run_onSend_pending [OF assms(1) True all assms(2)] by simp
    next
      case False
      then obtain pre ev post where
        split: "evs = pre @ ev # post" "truthy (fst ev)" "\<forall>x \<in> set pre. \<not> truthy (fst x)"
        using split_list_first_prop [of evs "\<lambda>ev. truthy (fst ev)"] by auto
      then have "completed b + length pre < stat_length b" using assms(2) by simp
      then have "snd (run_onSend (pre @ (fst ev, snd ev) # post) b) = [Invoke (batch_callback b) [fst ev]]"
        using split assms(1) True by (intro run_onSend_error) auto
      then show ?thesis using split by auto
    qed
  qed
  show "snd (run_onSend evs b) = []" if all: "\<forall>ev \<in> set evs. \<not> truthy (fst ev)"
  proof (cases "is_function (batch_callback b)")
    case False
    then show ?thesis by (simp add: run_onSend_no_function)
  next
    case True
    show ?thesis using run_onSend_pending [OF assms(1) True all assms(2)] by simp
  qed
qed

lemma sendAll_mock:
  assumes "truthy (mock c)" and "disambiguate sampleRate tags callback = (sr, tg, cb)"
  shows "socket (sendAll rt c stat value type sampleRate tags callback w) = socket w"
    and "calls (sendAll rt c stat value type sampleRate tags callback w) =
           calls w @ (if is_function cb \<and> delivered rt stat sr w
                      then [Invoke cb [JNull, JNum (Fin 0)]] else [])"
proof -
  let ?w1 = "sendAll rt c stat value type sampleRate tags callback w"
  have "socket ?w1 = socket w \<and>
        calls ?w1 = calls w @ (if is_function cb \<and> delivered rt stat sr w
                               then [Invoke cb [JNull, JNum (Fin 0)]] else [])"
  proof (cases "isArray stat")
    case False
    then have "?w1 = send rt c stat value type sr tg (Callback cb) w"
      using assms(2) by (cases stat) (simp_all add: sendAll_def)
    moreover have "delivered rt stat sr w = (\<not> dropped rt sr (draws w))"
      using False by (cases stat) (simp_all add: delivered_def)
    ultimately show ?thesis
      using assms(1) by (simp add: send_mock Let_def)
  next
    case True
    then obtain names where stat: "stat = JArr names" by (cases stat) simp_all
    let ?n = "length names"
    let ?sq = "synchronous rt c sr w ?n"
    let ?b = "new_batch ?n cb"
    have sq: "?sq = replicate (kept rt sr (draws w) ?n) (JNull, 0)"
      using assms(1) by (simp add: synchronous_def)
    have sock: "socket ?w1 = socket w"
      using sendAll_array_socket [OF assms(2), of rt c names "value" "type" w] assms(1)
      by (auto simp: stat)
    have "calls ?w1 = calls (completions (OnSend (length (batches w))) [] ?w1)"
      by (simp add: completions_def)
    then have run: "calls ?w1 = calls w @ snd (run_onSend ?sq ?b)"
      using sendAll_array_run(1) [OF assms(2), of w "[]" rt c names "value" "type"]
      by (simp add: stat)
    have "snd (run_onSend ?sq ?b) =
            (if is_function cb \<and> delivered rt stat sr w
             then [Invoke cb [JNull, JNum (Fin 0)]] else [])"
    proof (cases "is_function cb")
      case False
      then show ?thesis by (simp add: run_onSend_no_function)
    next
      case fn: True
      show ?thesis
      proof (cases "delivered rt stat sr w")
        case True
        then have n: "names \<noteq> []" and K: "kept rt sr (draws w) ?n = ?n"
          by (simp_all add: delivered_def stat kept_all)
        have "snd (run_onSend ?sq ?b) =
                [Invoke (batch_callback ?b)
                   [JNull, JNum (Fin (real (sentBytes ?b + sum_list (map snd ?sq))))]]"
          using fn n K sq by (intro run_onSend_all) auto
        then show ?thesis using fn True by (simp add: synchronous_bytes)
      next
        case False
        show ?thesis
        proof (cases "names = []")
          case True
          then show ?thesis using False by (simp add: synchronous_def delivered_def stat)
        next
          case ne: False
          then have "kept rt sr (draws w) ?n \<noteq> ?n"
            using False by (simp add: delivered_def stat kept_all)
          then have "length ?sq < ?n"
            using kept_le [of rt sr "draws w" ?n] by (simp add: sq)
          then have "snd (run_onSend ?sq ?b) = []"
            using run_onSend_short(2) [of ?b ?sq] synchronous_ok [of rt c sr w ?n] by simp
          then show ?thesis using False by simp
        qed
      qed
    qed
    then show ?thesis using sock run by simp
  qed
  then show "socket ?w1 = socket w"
    and "calls ?w1 = calls w @ (if is_function cb \<and> delivered rt stat sr w
                               then [Invoke cb [JNull, JNum (Fin 0)]] else [])"
    by simp_all
qed

lemma perform_sendAll:
  "\<exists>v t. perform op rt c stat value sampleRate tags callback w =
          sendAll rt c stat v t sampleRate tags callback w"
  by (cases op)
     (auto simp: timing_def increment_def decrement_def histogram_def gauge_def unique_def)

lemmas examples = runtime_with_def default_client_def mock_client_def empty_world_def

lemmas run_defs = sendAll_def disambiguate_def send_def sample_def add_tags_def transmit_def
  new_batch_def completions_def complete_def onSend_def Let_def

section \<open>The claims\<close>

subsection \<open>C1: the line of a send without sample rate and tags\<close>

text \<open>
  Claim C1, as the code has it: on a client that is no mock, \<^verbatim>\<open>send\<close> with no sample
  rate and no tags, for every stat name, value and type code, hands exactly one
  datagram to the socket; its bytes are the prefix, the name, the suffix, a colon, the
  value converted to a string as it is, a bar and the type code. Nothing else changes.
\<close>

theorem send_line:
  "\<not> truthy (mock c) \<Longrightarrow>
   send rt c (JStr name) value (JStr type) JUndefined JUndefined callback w =
     w\<lparr>socket := socket w @
         [\<lparr>dg_buf = prefix c @ name @ suffix c @ '':'' @ ToString rt value @ ''|'' @ type,
           dg_offset = 0,
           dg_length = length (prefix c @ name @ suffix c @ '':'' @ ToString rt value @ ''|'' @ type),
           dg_port = port c, dg_host = host c, dg_callback = callback\<rparr>]\<rparr>"
  by (simp add: send_real sampling_def add_tags_def line_def handed_def)

text \<open>
  Claim C1 at the stat \<^verbatim>\<open>x\<close>, the value 5 and the type \<^verbatim>\<open>ms\<close>, with prefix \<^verbatim>\<open>p.\<close> and
  suffix \<^verbatim>\<open>.s\<close>.
\<close>

theorem send_line_witness:
  "\<not> truthy (mock (default_client\<lparr>prefix := ''p.'', suffix := ''.s''\<rparr>)) \<and>
   send (runtime_with []) (default_client\<lparr>prefix := ''p.'', suffix := ''.s''\<rparr>)
       (JStr ''x'') (JNum (Fin 5)) (JStr ''ms'') JUndefined JUndefined (Callback (JFun 0)) empty_world =
     \<lparr>socket = [\<lparr>dg_buf = ''p.x.s:5|ms'', dg_offset = 0, dg_length = 10, dg_port = 8125,
                 dg_host = ''localhost'', dg_callback = Callback (JFun 0)\<rparr>],
      calls = [], batches = [], draws = 0\<rparr>"
  using send_line [of "default_client\<lparr>prefix := ''p.'', suffix := ''.s''\<rparr>" "runtime_with []"
      "''x''" "JNum (Fin 5)" "''ms''" "Callback (JFun 0)" empty_world]
  by (simp add: examples safe_integer_def digits.simps)

text \<open>
  Claim C1 as it is stated speaks of every client. On a mock client the same call hands
  no datagram to the socket.
\<close>

theorem send_mock_counterexample:
  "socket (send (runtime_with []) mock_client (JStr ''x'') (JNum (Fin 5)) (JStr ''ms'')
             JUndefined JUndefined (Callback (JFun 0)) empty_world) = []"
  by (simp add: send_mock dropped_def sampling_def examples)

subsection \<open>C2: sampling\<close>

text \<open>
  Claim C2, as the code has it: on a client that is no mock, for a sample rate that is
  a number other than zero. Below 1, a draw that is not below the rate ends the call:
  nothing is handed to the socket and no callback is invoked, then or later; a draw
  below the rate appends \<^verbatim>\<open>|@\<close> and the rate to the line, and the datagram is handed to
  the socket. At rate 1 no draw is made, nothing is appended and the datagram is handed
  to the socket.
\<close>

theorem send_sampled:
  assumes "\<not> truthy (mock c)" and "q \<noteq> 0"
  shows "(q < 1 \<and> q \<le> Math_random rt (draws w) \<longrightarrow>
            send rt c stat value type (JNum (Fin q)) tags callback w = w\<lparr>draws := draws w + 1\<rparr>) \<and>
         (q < 1 \<and> Math_random rt (draws w) < q \<longrightarrow>
            send rt c stat value type (JNum (Fin q)) tags callback w =
              w\<lparr>draws := draws w + 1,
                socket := socket w @
                  [handed c (add_tags rt tags
                     (line rt c stat value type @ ''|@'' @ NumberToString rt (Fin q))) callback]\<rparr>) \<and>
         (q = 1 \<longrightarrow>
            send rt c stat value type (JNum (Fin q)) tags callback w =
              w\<lparr>socket := socket w @
                  [handed c (add_tags rt tags (line rt c stat value type)) callback]\<rparr>)"
  using assms by (simp add: send_real sampling_def dropped_def)

text \<open>
  Claim C2 at rate 0.5 with the draws 0.7 (dropped) and 0.2 (sent as \<^verbatim>\<open>x:1|c|@0.5\<close>),
  and at rate 1.
\<close>

theorem send_sampled_witness:
  "\<not> truthy (mock default_client) \<and> (1 / 2 :: real) \<noteq> 0 \<and>
   send (runtime_with [7 / 10]) default_client (JStr ''x'') (JNum (Fin 1)) (JStr ''c'')
       (JNum (Fin (1 / 2))) JUndefined (Callback (JFun 0)) empty_world =
     empty_world\<lparr>draws := 1\<rparr> \<and>
   send (runtime_with [2 / 10]) default_client (JStr ''x'') (JNum (Fin 1)) (JStr ''c'')
       (JNum (Fin (1 / 2))) JUndefined (Callback (JFun 0)) empty_world =
     empty_world\<lparr>draws := 1, socket := [handed default_client ''x:1|c|@0.5'' (Callback (JFun 0))]\<rparr> \<and>
   send (runtime_with [7 / 10]) default_client (JStr ''x'') (JNum (Fin 1)) (JStr ''c'')
       (JNum (Fin 1)) JUndefined (Callback (JFun 0)) empty_world =
     empty_world\<lparr>socket := [handed default_client ''x:1|c'' (Callback (JFun 0))]\<rparr>"
  using send_sampled [of default_client "1 / 2" "runtime_with [7 / 10]" empty_world
      "JStr ''x''" "JNum (Fin 1)" "JStr ''c''" JUndefined "Callback (JFun 0)"]
    send_sampled [of default_client "1 / 2" "runtime_with [2 / 10]" empty_world
      "JStr ''x''" "JNum (Fin 1)" "JStr ''c''" JUndefined "Callback (JFun 0)"]
    send_sampled [of default_client 1 "runtime_with [7 / 10]" empty_world
      "JStr ''x''" "JNum (Fin 1)" "JStr ''c''" JUndefined "Callback (JFun 0)"]
  by (simp add: examples add_tags_def line_def safe_integer_def digits.simps)

text \<open>
  Claim C2 as it is stated fails at the rate 0, which is falsy at line 197: the draw 0.7
  is not below it, and the event is sent all the same, without a draw. It also fails on
  a mock client, where the event of a draw below the rate is not sent.
\<close>

theorem send_sampled_counterexample:
  "socket (send (runtime_with [7 / 10]) default_client (JStr ''x'') (JNum (Fin 1)) (JStr ''c'')
             (JNum (Fin 0)) JUndefined (Callback (JFun 0)) empty_world) =
     [handed default_client ''x:1|c'' (Callback (JFun 0))] \<and>
   socket (send (runtime_with [2 / 10]) mock_client (JStr ''x'') (JNum (Fin 1)) (JStr ''c'')
             (JNum (Fin (1 / 2))) JUndefined (Callback (JFun 0)) empty_world) = []"
  by (simp add: send_real send_mock sampling_def dropped_def examples add_tags_def line_def
        safe_integer_def digits.simps)

subsection \<open>C3: all sends of an array succeed\<close>

text \<open>
  Claim C3: \<^verbatim>\<open>sendAll\<close> on a non-empty array of names with a callback function, when no
  send is dropped and every datagram handed to the socket completes without an error,
  in whichever order: the callback is invoked exactly once, with null and the sum of
  the byte counts, and every permutation of the completions gives the same
  invocations. The datagrams of the call, one for each name, all carry the \<^verbatim>\<open>onSend\<close>
  of the call. (On a mock client no datagram is handed over, the sends complete inside
  the call with 0 bytes each.)
\<close>

theorem sendAll_all_succeed:
  assumes "disambiguate sampleRate tags callback = (sr, tg, cb)"
    and "is_function cb" and "names \<noteq> []"
    and "\<forall>k<length names. \<not> dropped rt sr (draws w + k)"
    and "w1 = sendAll rt c (JArr names) value type sampleRate tags callback w"
    and "length evs = length (socket w1) - length (socket w)"
    and "\<forall>ev \<in> set evs. \<not> truthy (fst ev)"
  shows "calls (completions (OnSend (length (batches w))) evs w1) =
           calls w @ [Invoke cb [JNull, JNum (Fin (real (sum_list (map snd evs))))]] \<and>
         (\<forall>evs'. mset evs' = mset evs \<longrightarrow>
            calls (completions (OnSend (length (batches w))) evs' w1) =
            calls (completions (OnSend (length (batches w))) evs w1)) \<and>
         length evs = (if truthy (mock c) then 0 else length names) \<and>
         (\<forall>d \<in> set (drop (length (socket w)) (socket w1)).
            dg_callback d = OnSend (length (batches w)))"
proof -
  let ?n = "length names"
  let ?sq = "synchronous rt c sr w ?n"
  have K: "kept rt sr (draws w) ?n = ?n"
    using assms(4) by (simp add: kept_all)
  have seen: "length ?sq + (length (socket w1) - length (socket w)) = ?n"
    using sendAll_array_seen [OF assms(1) assms(5)] K by simp
  have one: "calls (completions (OnSend (length (batches w))) xs w1) =
               calls w @ [Invoke cb [JNull, JNum (Fin (real (sum_list (map snd xs))))]]"
    if len: "length xs = length (socket w1) - length (socket w)"
      and ok: "\<forall>ev \<in> set xs. \<not> truthy (fst ev)" for xs
  proof -
    have "snd (run_onSend (?sq @ xs) (new_batch ?n cb)) =
            [Invoke (batch_callback (new_batch ?n cb))
               [JNull, JNum (Fin (real (sentBytes (new_batch ?n cb) + sum_list (map snd (?sq @ xs)))))]]"
      using assms(2,3) seen len ok synchronous_ok [of rt c sr w ?n]
      by (intro run_onSend_all) auto
    then show ?thesis
      unfolding assms(5) sendAll_array_run(1) [OF assms(1)]
      by (simp add: synchronous_bytes)
  qed
  have perm: "calls (completions (OnSend (length (batches w))) evs' w1) =
              calls (completions (OnSend (length (batches w))) evs w1)"
    if m: "mset evs' = mset evs" for evs'
  proof -
    have "length evs' = length evs" using m by (rule mset_eq_length)
    moreover have "set evs' = set evs" using m by (rule mset_eq_setD)
    moreover have "sum_list (map snd evs') = sum_list (map snd evs)"
    proof -
      have "mset (map snd evs') = mset (map snd evs)" using m by simp
      then have "sum_mset (mset (map snd evs')) = sum_mset (mset (map snd evs))" by simp
      then show ?thesis by (simp only: sum_mset_sum_list)
    qed
    ultimately show ?thesis using one [of evs'] one [of evs] assms(6,7) by simp
  qed
  have "length evs = (if truthy (mock c) then 0 else ?n)"
    using seen assms(6) K by (simp add: synchronous_length split: if_splits)
  moreover have "\<forall>d \<in> set (drop (length (socket w)) (socket w1)).
                   dg_callback d = OnSend (length (batches w))"
    using sendAll_array_socket [OF assms(1), of rt c names "value" "type" w] assms(5) by auto
  ultimately show ?thesis using one [OF assms(6,7)] perm by blast
qed

text \<open>
  Claim C3 at the names a, b, c with the byte counts 5, 6, 7, completing in the orders
  c, a, b and a, b, c.
\<close>

theorem sendAll_all_succeed_witness:
  "calls (completions (OnSend 0) [(JNull, 7), (JNull, 5), (JNull, 6)]
            (sendAll (runtime_with []) default_client (JArr [JStr ''a'', JStr ''b'', JStr ''c''])
               (JNum (Fin 1)) (JStr ''c'') (JFun 0) JUndefined JUndefined empty_world)) =
     [Invoke (JFun 0) [JNull, JNum (Fin 18)]] \<and>
   calls (completions (OnSend 0) [(JNull, 5), (JNull, 6), (JNull, 7)]
            (sendAll (runtime_with []) default_client (JArr [JStr ''a'', JStr ''b'', JStr ''c''])
               (JNum (Fin 1)) (JStr ''c'') (JFun 0) JUndefined JUndefined empty_world)) =
     [Invoke (JFun 0) [JNull, JNum (Fin 18)]]"
proof -
  let ?w1 = "sendAll (runtime_with []) default_client (JArr [JStr ''a'', JStr ''b'', JStr ''c''])
               (JNum (Fin 1)) (JStr ''c'') (JFun 0) JUndefined JUndefined empty_world"
  have d: "disambiguate (JFun 0) JUndefined JUndefined = (JUndefined, JUndefined, JFun 0)"
    by (simp add: disambiguate_def)
  have nodrop: "\<forall>k<length [JStr ''a'', JStr ''b'', JStr ''c''].
                  \<not> dropped (runtime_with []) JUndefined (draws empty_world + k)"
    by (simp add: dropped_def sampling_def)
  have len: "length [(JNull, 7), (JNull, 5), (JNull, 6 :: nat)] =
               length (socket ?w1) - length (socket empty_world)"
    by (simp add: run_defs examples)
  have ok: "\<forall>ev \<in> set [(JNull, 7), (JNull, 5), (JNull, 6 :: nat)]. \<not> truthy (fst ev)"
    by simp
  have "mset [(JNull, 5), (JNull, 6), (JNull, 7 :: nat)] = mset [(JNull, 7), (JNull, 5), (JNull, 6)]"
    by simp
  then show ?thesis
    using sendAll_all_succeed [OF d _ _ nodrop refl len ok]
    by (simp add: empty_world_def)
qed

subsection \<open>C4: the callback of an array is invoked at most once\<close>

text \<open>
  Claim C4: after \<^verbatim>\<open>sendAll\<close> on an array of names, for every list of completions of
  the datagrams handed to the socket (each at most once, with or without an error, in
  any order), the callback is invoked at most once over the call and the completions;
  where the callback is a function, the first completion with an error invokes it with
  that error and there is no other invocation; and once an invocation has happened,
  the completions after it add none.
\<close>

theorem sendAll_calls_back_once:
  assumes "disambiguate sampleRate tags callback = (sr, tg, cb)"
    and "w1 = sendAll rt c (JArr names) value type sampleRate tags callback w"
    and "length evs \<le> length (socket w1) - length (socket w)"
  shows "(\<exists>cs. calls (completions (OnSend (length (batches w))) evs w1) = calls w @ cs \<and>
               length cs \<le> 1) \<and>
         (\<forall>pre e n post.
            evs = pre @ (e, n) # post \<and> (\<forall>ev \<in> set pre. \<not> truthy (fst ev)) \<and> truthy e \<and>
            is_function cb \<longrightarrow>
            calls (completions (OnSend (length (batches w))) evs w1) = calls w @ [Invoke cb [e]]) \<and>
         (\<forall>k. calls (completions (OnSend (length (batches w))) (take k evs) w1) \<noteq> calls w \<longrightarrow>
            calls (completions (OnSend (length (batches w))) evs w1) =
            calls (completions (OnSend (length (batches w))) (take k evs) w1))"
proof -
  let ?n = "length names"
  let ?sq = "synchronous rt c sr w ?n"
  let ?b = "new_batch ?n cb"
  have seen: "length (?sq @ evs) \<le> ?n"
    using sendAll_array_seen [OF assms(1,2)] assms(3) kept_le [of rt sr "draws w" ?n] by simp
  have run: "calls (completions (OnSend (length (batches w))) xs w1) =
               calls w @ snd (run_onSend (?sq @ xs) ?b)" for xs
    unfolding assms(2) by (rule sendAll_array_run(1) [OF assms(1)])
  have once: "length (snd (run_onSend (?sq @ evs) ?b)) \<le> 1"
    using seen by (intro run_onSend_at_most_once) simp_all
  have first: "calls (completions (OnSend (length (batches w))) evs w1) = calls w @ [Invoke cb [e]]"
    if "evs = pre @ (e, n) # post" "\<forall>ev \<in> set pre. \<not> truthy (fst ev)" "truthy e" "is_function cb"
    for pre e n post
  proof -
    have "snd (run_onSend ((?sq @ pre) @ (e, n) # post) ?b) = [Invoke (batch_callback ?b) [e]]"
      using that seen synchronous_ok [of rt c sr w ?n] by (intro run_onSend_error) auto
    then show ?thesis using that(1) by (simp add: run)
  qed
  have fired: "calls (completions (OnSend (length (batches w))) evs w1) =
               calls (completions (OnSend (length (batches w))) (take k evs) w1)"
    if "calls (completions (OnSend (length (batches w))) (take k evs) w1) \<noteq> calls w" for k
  proof -
    have ne: "snd (run_onSend (?sq @ take k evs) ?b) \<noteq> []"
      using that by (simp add: run)
    have "?sq @ evs = (?sq @ take k evs) @ drop k evs" by simp
    then have "snd (run_onSend (?sq @ evs) ?b) =
                 snd (run_onSend (?sq @ take k evs) ?b) @
                 snd (run_onSend (drop k evs) (fst (run_onSend (?sq @ take k evs) ?b)))"
      by (metis run_onSend_append_snd)
    moreover from this once ne
    have "snd (run_onSend (drop k evs) (fst (run_onSend (?sq @ take k evs) ?b))) = []"
      by (cases "snd (run_onSend (?sq @ take k evs) ?b)") auto
    ultimately show ?thesis by (simp add: run)
  qed
  show ?thesis using run [of evs] once first fired by blast
qed

text \<open>
  Claim C4 at three names whose second completion carries an error.
\<close>

theorem sendAll_calls_back_once_witness:
  "calls (completions (OnSend 0) [(JNull, 5), (JObj ''Error: boom'', 0), (JNull, 7)]
            (sendAll (runtime_with []) default_client (JArr [JStr ''a'', JStr ''b'', JStr ''c''])
               (JNum (Fin 1)) (JStr ''c'') (JFun 0) JUndefined JUndefined empty_world)) =
     [Invoke (JFun 0) [JObj ''Error: boom'']]"
proof -
  let ?w1 = "sendAll (runtime_with []) default_client (JArr [JStr ''a'', JStr ''b'', JStr ''c''])
               (JNum (Fin 1)) (JStr ''c'') (JFun 0) JUndefined JUndefined empty_world"
  have d: "disambiguate (JFun 0) JUndefined JUndefined = (JUndefined, JUndefined, JFun 0)"
    by (simp add: disambiguate_def)
  have len: "length [(JNull, 5), (JObj ''Error: boom'', 0), (JNull, 7 :: nat)] \<le>
               length (socket ?w1) - length (socket empty_world)"
    by (simp add: run_defs examples)
  have first: "\<forall>pre e n post.
      [(JNull, 5), (JObj ''Error: boom'', 0), (JNull, 7 :: nat)] = pre @ (e, n) # post \<and>
      (\<forall>ev \<in> set pre. \<not> truthy (fst ev)) \<and> truthy e \<and> is_function (JFun 0) \<longrightarrow>
      calls (completions (OnSend (length (batches empty_world)))
               [(JNull, 5), (JObj ''Error: boom'', 0), (JNull, 7)] ?w1) =
        calls empty_world @ [Invoke (JFun 0) [e]]"
    using sendAll_calls_back_once [OF d refl len] by blast
  show ?thesis
    using first [rule_format, of "[(JNull, 5)]" "JObj ''Error: boom''" 0 "[(JNull, 7)]"]
    by (simp add: empty_world_def)
qed

subsection \<open>C5: the optional arguments\<close>

text \<open>
  Claim C5: lines 142 to 151 compute a function of the three slots: a truthy value in
  the first slot that is no number becomes the tags, with the second slot as callback,
  and a truthy value that is then in the tags and is no array becomes the callback.
  For every call shape (the sample rate, the tags and the callback each present or
  absent, passed in this order without gaps) this assigns each argument to its own
  parameter, as it does when every parameter stands in its own slot. \<^verbatim>\<open>sendAll\<close> on a
  call shape hands exactly these parameters to \<^verbatim>\<open>send\<close>: for a single name it is
  \<^verbatim>\<open>send\<close> of the name, the value and the type with the sample rate, the tags and the
  callback of the shape (\<^verbatim>\<open>undefined\<close> where the shape has none); for an array it is
  one such \<^verbatim>\<open>send\<close> for each name, with the \<^verbatim>\<open>onSend\<close> of a closure that holds the
  callback of the shape. So it also does what it does on the three parameters in their
  own slots.
\<close>

theorem disambiguate_call_shapes:
  "disambiguate s t cb =
     (if truthy s \<and> \<not> is_number s
      then (if isArray s then (JUndefined, s, t) else (JUndefined, JUndefined, s))
      else if truthy t \<and> \<not> isArray t then (s, JUndefined, t)
      else (s, t, cb)) \<and>
   disambiguate (argument (call_shape sampleRate tags callback) 0)
                (argument (call_shape sampleRate tags callback) 1)
                (argument (call_shape sampleRate tags callback) 2) =
     (optional JNum sampleRate, optional JArr tags, optional JFun callback) \<and>
   disambiguate (optional JNum sampleRate) (optional JArr tags) (optional JFun callback) =
     (optional JNum sampleRate, optional JArr tags, optional JFun callback) \<and>
   sendAll rt c stat value type
       (argument (call_shape sampleRate tags callback) 0)
       (argument (call_shape sampleRate tags callback) 1)
       (argument (call_shape sampleRate tags callback) 2) w =
     (case stat of
        JArr items \<Rightarrow>
          foldl (\<lambda>w' item. send rt c item value type
                              (optional JNum sampleRate) (optional JArr tags)
                              (OnSend (length (batches w))) w')
            (w\<lparr>batches := batches w @
                 [new_batch (length items) (optional JFun callback)]\<rparr>) items
      | _ \<Rightarrow>
          send rt c stat value type
            (optional JNum sampleRate) (optional JArr tags)
            (Callback (optional JFun callback)) w) \<and>
   sendAll rt c stat value type
       (argument (call_shape sampleRate tags callback) 0)
       (argument (call_shape sampleRate tags callback) 1)
       (argument (call_shape sampleRate tags callback) 2) w =
     sendAll rt c stat value type
       (optional JNum sampleRate) (optional JArr tags) (optional JFun callback) w"
proof -
  have rule: "disambiguate s t cb =
     (if truthy s \<and> \<not> is_number s
      then (if isArray s then (JUndefined, s, t) else (JUndefined, JUndefined, s))
      else if truthy t \<and> \<not> isArray t then (s, JUndefined, t)
      else (s, t, cb))"
    by (cases s) (simp_all add: disambiguate_def)
  have shapes:
    "disambiguate (argument (call_shape sampleRate tags callback) 0)
                  (argument (call_shape sampleRate tags callback) 1)
                  (argument (call_shape sampleRate tags callback) 2) =
       (optional JNum sampleRate, optional JArr tags, optional JFun callback)"
    "disambiguate (optional JNum sampleRate) (optional JArr tags) (optional JFun callback) =
       (optional JNum sampleRate, optional JArr tags, optional JFun callback)"
    by (cases sampleRate; cases tags; cases callback;
        simp add: disambiguate_def call_shape_def argument_def optional_def)+
  have sends:
    "sendAll rt c stat value type
         (argument (call_shape sampleRate tags callback) 0)
         (argument (call_shape sampleRate tags callback) 1)
         (argument (call_shape sampleRate tags callback) 2) w =
       (case stat of
          JArr items \<Rightarrow>
            foldl (\<lambda>w' item. send rt c item value type
                                (optional JNum sampleRate) (optional JArr tags)
                                (OnSend (length (batches w))) w')
              (w\<lparr>batches := batches w @
                   [new_batch (length items) (optional JFun callback)]\<rparr>) items
        | _ \<Rightarrow>
            send rt c stat value type
              (optional JNum sampleRate) (optional JArr tags)
              (Callback (optional JFun callback)) w)"
    by (simp only: sendAll_def shapes(1) prod.case)
  have same:
    "sendAll rt c stat value type
         (argument (call_shape sampleRate tags callback) 0)
         (argument (call_shape sampleRate tags callback) 1)
         (argument (call_shape sampleRate tags callback) 2) w =
       sendAll rt c stat value type
         (optional JNum sampleRate) (optional JArr tags) (optional JFun callback) w"
    by (simp only: sendAll_def shapes prod.case)
  show ?thesis
    using rule shapes sends same by (intro conjI)
qed

text \<open>
  Claim C5 at \<^verbatim>\<open>sendAll('x', 1, 'c', ['t'], callback)\<close>, the shape with tags and
  callback and no sample rate: the datagram carries the tags and the callback.
\<close>

lemma sendAll_tags_callback:
  "sendAll (runtime_with []) default_client (JStr ''x'') (JNum (Fin 1)) (JStr ''c'')
       (JArr [JStr ''t'']) (JFun 0) JUndefined empty_world =
     empty_world\<lparr>socket := [handed default_client ''x:1|c|#t'' (Callback (JFun 0))]\<rparr>"
  by (simp add: sendAll_def disambiguate_def send_real sampling_def add_tags_def Array_join_def
        line_def safe_integer_def digits.simps examples)

subsection \<open>C6: mock mode\<close>

text \<open>
  Claim C6, as the code has it: on a mock client no operation hands anything to the
  socket, and an operation invokes the callback at most once and only with null and 0,
  never with an error. It invokes it exactly when the callback is a function, no send
  of the call is dropped by sampling and the stat is not an empty array.
\<close>

theorem mock_client_operations:
  assumes "truthy (mock c)" and "disambiguate sampleRate tags callback = (sr, tg, cb)"
  shows "socket (perform op rt c stat value sampleRate tags callback w) = socket w \<and>
         calls (perform op rt c stat value sampleRate tags callback w) =
           calls w @ (if is_function cb \<and> delivered rt stat sr w
                      then [Invoke cb [JNull, JNum (Fin 0)]] else [])"
proof -
  obtain v t where "perform op rt c stat value sampleRate tags callback w =
                    sendAll rt c stat v t sampleRate tags callback w"
    using perform_sendAll by blast
  then show ?thesis
    using sendAll_mock [OF assms, of rt stat v t w] by simp
qed

text \<open>
  Claim C6 at \<^verbatim>\<open>increment('x', undefined, callback)\<close>.
\<close>

theorem mock_client_operations_witness:
  "socket (perform Increment (runtime_with []) mock_client (JStr ''x'') JUndefined
             (JFun 0) JUndefined JUndefined empty_world) = [] \<and>
   calls (perform Increment (runtime_with []) mock_client (JStr ''x'') JUndefined
            (JFun 0) JUndefined JUndefined empty_world) = [Invoke (JFun 0) [JNull, JNum (Fin 0)]]"
proof -
  have m: "truthy (mock mock_client)" by (simp add: examples)
  have d: "disambiguate (JFun 0) JUndefined JUndefined = (JUndefined, JUndefined, JFun 0)"
    by (simp add: disambiguate_def)
  show ?thesis
    using mock_client_operations [OF m d, of Increment "runtime_with []" "JStr ''x''" JUndefined empty_world]
    by (simp add: delivered_def dropped_def sampling_def empty_world_def)
qed

text \<open>
  Claim C6 as it is stated promises the invocation for every operation. On a mock
  client \<^verbatim>\<open>increment\<close> with rate 0.5 and the draw 0.7 invokes no callback, and neither
  does \<^verbatim>\<open>increment\<close> on an empty array.
\<close>

theorem mock_client_counterexample:
  "calls (increment (runtime_with [7 / 10]) mock_client (JStr ''x'') (JNum (Fin 1))
            (JNum (Fin (1 / 2))) JUndefined (JFun 0) empty_world) = [] \<and>
   calls (increment (runtime_with []) mock_client (JArr []) (JNum (Fin 1))
            (JFun 0) JUndefined JUndefined empty_world) = []"
  by (simp add: increment_def js_or_def run_defs examples)

subsection \<open>C7: decrement\<close>

text \<open>
  Claim C7 fails at the value 0: \<^verbatim>\<open>-0 || -1\<close> is -1, so \<^verbatim>\<open>decrement\<close> by 0 sends what
  \<^verbatim>\<open>decrement\<close> by 1 sends, the line \<^verbatim>\<open>x:-1|c\<close> on the default client.
\<close>

theorem decrement_zero:
  "decrement rt c stat (JNum (Fin 0)) sampleRate tags callback w =
     sendAll rt c stat (JNum (Fin (- 1))) (JStr ''c'') sampleRate tags callback w \<and>
   socket (decrement (runtime_with []) default_client (JStr ''x'') (JNum (Fin 0))
             JUndefined JUndefined JUndefined empty_world) =
     [handed default_client ''x:-1|c'' (Callback JUndefined)]"
  by (simp add: decrement_def js_or_def sendAll_def disambiguate_def send_real sampling_def
        add_tags_def line_def NumberToString_minus_one examples del: NumberToString.simps)

text \<open>
  For every other finite value the claim holds, and for a missing value too.
\<close>

lemma decrement_value:
  "v \<noteq> 0 \<Longrightarrow>
   decrement rt c stat (JNum (Fin v)) sampleRate tags callback w =
     sendAll rt c stat (JNum (Fin (- v))) (JStr ''c'') sampleRate tags callback w"
  by (simp add: decrement_def js_or_def)

lemma decrement_default:
  "decrement rt c stat JUndefined sampleRate tags callback w =
     sendAll rt c stat (JNum (Fin (- 1))) (JStr ''c'') sampleRate tags callback w"
  by (simp add: decrement_def js_or_def)

subsection \<open>C8: the empty array\<close>

text \<open>
  Claim C8: \<^verbatim>\<open>sendAll\<close> on an empty array only creates the variables of its closure.
  Nothing is handed to the socket, no callback is invoked and no draw is made; and as
  no datagram carries the closure, no completion can reach the callback later.
\<close>

theorem sendAll_empty:
  "sendAll rt c (JArr []) value type sampleRate tags callback w =
     w\<lparr>batches := batches w @ [new_batch 0 (snd (snd (disambiguate sampleRate tags callback)))]\<rparr> \<and>
   socket (sendAll rt c (JArr []) value type sampleRate tags callback w) = socket w \<and>
   calls (sendAll rt c (JArr []) value type sampleRate tags callback w) = calls w \<and>
   draws (sendAll rt c (JArr []) value type sampleRate tags callback w) = draws w"
  by (simp add: sendAll_def split: prod.splits)

subsection \<open>C9: empty tags\<close>

text \<open>
  Claim C9: with an empty array as tags, the line gets the delimiter \<^verbatim>\<open>|#\<close> and nothing
  after it; a send that is not dropped hands this line to the socket of a client that
  is no mock.
\<close>

theorem send_empty_tags:
  assumes "\<not> truthy (mock c)" and "\<not> dropped rt sampleRate (draws w)"
  shows "add_tags rt (JArr []) message = message @ ''|#'' \<and>
         socket (send rt c stat value type sampleRate (JArr []) callback w) =
           socket w @
             [handed c ((if sampling rt sampleRate
                         then line rt c stat value type @ ''|@'' @ ToString rt sampleRate
                         else line rt c stat value type) @ ''|#'') callback]"
  using assms by (simp add: send_real add_tags_def Array_join_def)

text \<open>
  Claim C9 at rate 0.5 with the draw 0.2: the line is \<^verbatim>\<open>x:1|c|@0.5|#\<close>.
\<close>

theorem send_empty_tags_witness:
  "\<not> truthy (mock default_client) \<and>
   \<not> dropped (runtime_with [2 / 10]) (JNum (Fin (1 / 2))) (draws empty_world) \<and>
   socket (send (runtime_with [2 / 10]) default_client (JStr ''x'') (JNum (Fin 1)) (JStr ''c'')
             (JNum (Fin (1 / 2))) (JArr []) (Callback JUndefined) empty_world) =
     [handed default_client ''x:1|c|@0.5|#'' (Callback JUndefined)]"
  using send_empty_tags [of default_client "runtime_with [2 / 10]" "JNum (Fin (1 / 2))" empty_world
      "[]" "JStr ''x''" "JNum (Fin 1)" "JStr ''c''" "Callback JUndefined"]
  by (simp add: examples dropped_def sampling_def line_def safe_integer_def digits.simps)

subsection \<open>C10: a dropped name of an array\<close>




end
